theory Spec2Isabelle
  imports Complex_Main "HOL-Library.Word" "HOL-Library.Sublist" "HOL-Library.Log_Nat"
begin

section \<open>Data model of \<^verbatim>\<open>src/app/page.tsx\<close>\<close>

text \<open>
  A JavaScript string is a sequence of UTF-16 code units. The helper \<open>js\<close> turns an
  ASCII literal into such a sequence; it is only used to write concrete inputs.
\<close>

type_synonym js_string = "16 word list"

definition js :: "string \<Rightarrow> js_string" where
  "js s = map of_char s"

datatype Category = Work | Health | Skill | Personal

text \<open>
  The type \<^verbatim>\<open>Block\<close>. The field \<^verbatim>\<open>id\<close> is a JavaScript number: \<^verbatim>\<open>Date.now()\<close> for a
  block typed in by the user and \<^verbatim>\<open>Date.now() + Math.random()\<close> for a generated one.
  Every finite double is a rational, so the field is a \<open>rat\<close>; it is named \<open>id'\<close>
  because \<open>id\<close> is the identity function of HOL. The field \<^verbatim>\<open>order\<close> only ever
  receives an array length or an array index, hence \<open>nat\<close>.
\<close>

record Block =
  id' :: rat
  title :: js_string
  completed :: bool
  category :: Category
  date :: js_string
  isRecurring :: bool
  order :: nat

text \<open>
  The state of the component \<^verbatim>\<open>Home\<close>: the four \<^verbatim>\<open>useState\<close> cells. The cells
  \<^verbatim>\<open>category\<close> and \<^verbatim>\<open>isRecurring\<close> carry the suffix \<open>_st\<close> to keep them apart from
  the fields of \<open>Block\<close>.
\<close>

record Home =
  blocks :: "Block list"
  newBlock :: js_string
  category_st :: Category
  isRecurring_st :: bool

section \<open>JavaScript library functions used by the source\<close>

text \<open>
  \<^verbatim>\<open>String.prototype.trim\<close> strips the code units of the ECMAScript productions
  WhiteSpace and LineTerminator from both ends.
\<close>

definition isWhiteSpace :: "16 word \<Rightarrow> bool" where
  "isWhiteSpace c \<longleftrightarrow>
     c = 0x09 \<or> c = 0x0A \<or> c = 0x0B \<or> c = 0x0C \<or> c = 0x0D \<or> c = 0x20 \<or> c = 0xA0
     \<or> c = 0x1680 \<or> (0x2000 \<le> c \<and> c \<le> 0x200A) \<or> c = 0x2028 \<or> c = 0x2029
     \<or> c = 0x202F \<or> c = 0x205F \<or> c = 0x3000 \<or> c = 0xFEFF"

definition trim :: "js_string \<Rightarrow> js_string" where
  "trim s = rev (dropWhile isWhiteSpace (rev (dropWhile isWhiteSpace s)))"

text \<open>\<^verbatim>\<open>Array.prototype.findIndex\<close>: the first index whose element satisfies the
  predicate, \<open>-1\<close> when there is none.\<close>

fun findIndex_from :: "('a \<Rightarrow> bool) \<Rightarrow> 'a list \<Rightarrow> int \<Rightarrow> int" where
  "findIndex_from p [] k = -1"
| "findIndex_from p (x # xs) k = (if p x then k else findIndex_from p xs (k + 1))"

definition findIndex :: "('a \<Rightarrow> bool) \<Rightarrow> 'a list \<Rightarrow> int" where
  "findIndex p xs = findIndex_from p xs 0"

text \<open>
  \<^verbatim>\<open>Array.prototype.splice(start, deleteCount, ...items)\<close>: a negative \<open>start\<close> counts
  from the end of the array, and both numbers are clamped to the array. The result is
  the pair of the removed elements and the array after the call.
\<close>

definition splice :: "int \<Rightarrow> int \<Rightarrow> 'a list \<Rightarrow> 'a list \<Rightarrow> 'a list \<times> 'a list" where
  "splice start deleteCount items xs =
     (let len = int (length xs);
          actualStart = (if start < 0 then max (len + start) 0 else min start len);
          actualDeleteCount = min (max deleteCount 0) (len - actualStart)
      in (take (nat actualDeleteCount) (drop (nat actualStart) xs),
          take (nat actualStart) xs @ items
            @ drop (nat (actualStart + actualDeleteCount)) xs))"

section \<open>Arithmetic of JavaScript numbers\<close>

text \<open>
  A JavaScript number is an IEEE 754 double. A finite double is a rational, and the
  result of \<^verbatim>\<open>/\<close> and \<^verbatim>\<open>*\<close> is the exact result rounded to the nearest double, ties
  to the even significand: \<open>fl\<close>. It rounds to 53 significant bits and leaves the
  exponent unbounded, which is the IEEE rounding for every magnitude between
  \<^verbatim>\<open>2^-1022\<close> and \<^verbatim>\<open>2^1024\<close>; a ratio of two array lengths and its product with
  100 are in that range. \<open>ilog2 q\<close> is the integer part of the binary logarithm of a
  positive \<open>q\<close>.
\<close>

definition ilog2 :: "rat \<Rightarrow> int" where
  "ilog2 q = (if 1 \<le> q then int (floorlog 2 (nat \<lfloor>q\<rfloor>)) - 1
              else - int (floorlog 2 (nat (\<lceil>1 / q\<rceil> - 1))))"

definition round_ties_even :: "rat \<Rightarrow> int" where
  "round_ties_even x =
     (let f = \<lfloor>x\<rfloor>; d = x - of_int f
      in if d < 1 / 2 then f else if 1 / 2 < d then f + 1 else if even f then f else f + 1)"

definition fl :: "rat \<Rightarrow> rat" where
  "fl q = (if q = 0 then 0
           else (let e = ilog2 \<bar>q\<bar> - 52
                 in sgn q * of_int (round_ties_even (\<bar>q\<bar> / 2 powi e)) * 2 powi e))"

text \<open>\<^verbatim>\<open>Math.round\<close>: the nearest integer, a tie going up.\<close>

definition Math_round :: "rat \<Rightarrow> int" where
  "Math_round x = \<lfloor>x + 1 / 2\<rfloor>"

section \<open>Helpers\<close>

text \<open>
  The calendar is the injected clock: \<open>daysAgo i\<close> is the string that
  \<^verbatim>\<open>d.setDate(d.getDate() - i); d.toISOString().split("T")[0]\<close> yields for a fresh
  \<^verbatim>\<open>new Date()\<close>, so \<open>daysAgo 0\<close> is \<^verbatim>\<open>todayStr()\<close>.
\<close>

definition last7Days :: "(nat \<Rightarrow> js_string) \<Rightarrow> js_string list" where
  "last7Days daysAgo = map (\<lambda>i. daysAgo (6 - i)) [0..<7]"

text \<open>The loop of \<^verbatim>\<open>streak\<close>, with its counter \<open>i\<close> and its accumulator \<open>s\<close>.\<close>

function streak_loop :: "(nat \<Rightarrow> js_string) \<Rightarrow> Block list \<Rightarrow> nat \<Rightarrow> nat \<Rightarrow> nat" where
  "streak_loop daysAgo bs i s =
     (if i < 365 then
        (if list_ex (\<lambda>b. date b = daysAgo i \<and> completed b) bs
         then streak_loop daysAgo bs (i + 1) (s + 1)
         else s)
      else s)"
  by pat_completeness auto
termination
  by (relation "measure (\<lambda>(daysAgo, bs, i, s). 365 - i)") auto

declare streak_loop.simps [simp del]

definition streak :: "(nat \<Rightarrow> js_string) \<Rightarrow> Block list \<Rightarrow> nat" where
  "streak daysAgo bs = streak_loop daysAgo bs 0 0"

section \<open>Effects of the component\<close>

text \<open>
  The storage effect: \<^verbatim>\<open>if (saved) setBlocks(JSON.parse(saved))\<close>, run on the initial
  state \<^verbatim>\<open>[]\<close>. \<^verbatim>\<open>localStorage.getItem\<close> gives \<^verbatim>\<open>null\<close> (\<open>None\<close>) or a string, and
  \<^verbatim>\<open>null\<close> and the empty string are falsy. \<^verbatim>\<open>JSON.parse\<close> is a parameter: it returns
  the parsed array or throws \<^verbatim>\<open>SyntaxError\<close>. The source has no \<^verbatim>\<open>try\<close>, so what
  \<^verbatim>\<open>JSON.parse\<close> throws leaves the effect. The result is the store after the effect,
  or the exception.
\<close>

datatype js_error = SyntaxError

definition loadBlocks ::
  "(js_string \<Rightarrow> js_error + Block list) \<Rightarrow> js_string option \<Rightarrow> js_error + Block list" where
  "loadBlocks JSON_parse saved =
     (case saved of
        None \<Rightarrow> Inr []
      | Some s \<Rightarrow>
          if s = [] then Inr []
          else (case JSON_parse s of Inl e \<Rightarrow> Inl e | Inr parsed \<Rightarrow> Inr parsed))"

text \<open>
  The recurring effect. It reads two lists. \<open>blocks'\<close> is the constant \<^verbatim>\<open>blocks\<close> that the
  effect closes over: the state of the render that scheduled the effect. The effect
  has the dependencies \<^verbatim>\<open>[today]\<close>, so it runs after the first render, where \<^verbatim>\<open>blocks\<close>
  is the initial \<^verbatim>\<open>[]\<close> of \<^verbatim>\<open>useState\<close> (the snapshot is loaded by an effect of that same
  render and is not in \<^verbatim>\<open>blocks\<close> yet), and after a render in which \<^verbatim>\<open>today\<close> has changed.
  \<open>prev\<close> is the argument of the updater given to \<^verbatim>\<open>setBlocks\<close>: the store at the moment
  the update is applied. The templates and \<^verbatim>\<open>existsToday\<close> are computed from
  \<open>blocks'\<close>, and the generated blocks are appended to \<open>prev\<close>; the result is the store
  after the effect. \<open>fresh i\<close> is the value of the \<open>i\<close>-th evaluation of
  \<^verbatim>\<open>Date.now() + Math.random()\<close>; \<^verbatim>\<open>map\<close> evaluates it once per template, in order.
  The spread \<^verbatim>\<open>...b\<close> copies every field of the template, and the three fields written
  after it replace the copied values.
\<close>

definition recurringEffect ::
  "js_string \<Rightarrow> (nat \<Rightarrow> rat) \<Rightarrow> Block list \<Rightarrow> Block list \<Rightarrow> Block list" where
  "recurringEffect today fresh blocks' prev =
     (let templates = filter (\<lambda>b. isRecurring b \<and> date b \<noteq> today) blocks';
          existsToday = list_ex (\<lambda>b. isRecurring b \<and> date b = today) blocks'
      in if existsToday then prev
         else
           (let generated = map (\<lambda>(i, b). b\<lparr>id' := fresh i, completed := False, date := today\<rparr>)
                              (enumerate 0 templates)
            in if generated \<noteq> [] then prev @ generated else prev))"

section \<open>Derived values\<close>

text \<open>\<^verbatim>\<open>Array.prototype.sort\<close> is stable, as \<open>sort_key\<close> is.\<close>

definition todaysBlocks :: "js_string \<Rightarrow> Block list \<Rightarrow> Block list" where
  "todaysBlocks today bs = sort_key order (filter (\<lambda>b. date b = today) bs)"

text \<open>\<^verbatim>\<open>completed\<close> and \<^verbatim>\<open>progress\<close>, the two constants derived from \<^verbatim>\<open>todaysBlocks\<close>.\<close>

definition progress :: "js_string \<Rightarrow> Block list \<Rightarrow> int" where
  "progress today bs =
     (let tb = todaysBlocks today bs;
          completed_n = length (filter completed tb)
      in if length tb = 0 then 0
         else Math_round (fl (fl (of_nat completed_n / of_nat (length tb)) * 100)))"

text \<open>An entry \<^verbatim>\<open>{date, completed}\<close> of \<^verbatim>\<open>weeklyData\<close> is the pair of its two fields.\<close>

definition weeklyData :: "(nat \<Rightarrow> js_string) \<Rightarrow> Block list \<Rightarrow> (js_string \<times> nat) list" where
  "weeklyData daysAgo bs =
     map (\<lambda>d. (drop 5 d, length (filter (\<lambda>b. date b = d \<and> completed b) bs)))
       (last7Days daysAgo)"

section \<open>Actions\<close>

text \<open>
  \<^verbatim>\<open>addBlock\<close>; \<open>now\<close> is the value of \<^verbatim>\<open>Date.now()\<close>. The empty string is the only
  falsy string. \<^verbatim>\<open>todaysBlocks\<close> is the list of the render in which the action runs,
  taken from the same store that the block is appended to.
\<close>

definition addBlock :: "js_string \<Rightarrow> int \<Rightarrow> Home \<Rightarrow> Home" where
  "addBlock today now st =
     (if trim (newBlock st) = [] then st
      else st\<lparr>blocks := blocks st @
                 [\<lparr>id' = of_int now, title = newBlock st, completed = False,
                   category = category_st st, date = today,
                   isRecurring = isRecurring_st st,
                   order = length (todaysBlocks today (blocks st))\<rparr>],
              newBlock := [],
              isRecurring_st := False\<rparr>)"

definition toggleBlock :: "rat \<Rightarrow> Block list \<Rightarrow> Block list" where
  "toggleBlock i prev = map (\<lambda>b. if id' b = i then b\<lparr>completed := \<not> completed b\<rparr> else b) prev"

definition deleteBlock :: "rat \<Rightarrow> Block list \<Rightarrow> Block list" where
  "deleteBlock i prev = filter (\<lambda>b. id' b \<noteq> i) prev"

text \<open>
  \<^verbatim>\<open>handleDragEnd\<close>. The array \<^verbatim>\<open>reordered\<close> can hold \<^verbatim>\<open>undefined\<close> (\<open>None\<close>): when
  \<^verbatim>\<open>splice\<close> removes nothing, \<^verbatim>\<open>moved\<close> is \<^verbatim>\<open>undefined\<close> and is inserted all the same.
  Spreading \<^verbatim>\<open>undefined\<close> copies no field, so \<^verbatim>\<open>{ ...b, order: i }\<close> is then the
  object \<^verbatim>\<open>{ order: i }\<close>, written \<open>OrderOnly i\<close>.
\<close>

datatype Stored = Whole Block | OrderOnly nat

definition handleDragEnd :: "js_string \<Rightarrow> rat \<Rightarrow> rat option \<Rightarrow> Block list \<Rightarrow> Stored list" where
  "handleDragEnd today active_id over prev =
     (case over of
        None \<Rightarrow> map Whole prev
      | Some over_id \<Rightarrow>
          if active_id = over_id then map Whole prev
          else
            (let todayItems = sort_key order (filter (\<lambda>b. date b = today) prev);
                 oldIndex = findIndex (\<lambda>b. id' b = active_id) todayItems;
                 newIndex = findIndex (\<lambda>b. id' b = over_id) todayItems;
                 reordered = map Some todayItems;
                 (removed, reordered1) = splice oldIndex 1 [] reordered;
                 moved = (case removed of [] \<Rightarrow> None | m # _ \<Rightarrow> m);
                 (inserted, reordered2) = splice newIndex 0 [moved] reordered1;
                 updated = map (\<lambda>(i, b). case b of
                                   None \<Rightarrow> OrderOnly i
                                 | Some b' \<Rightarrow> Whole (b'\<lparr>order := i\<rparr>))
                             (enumerate 0 reordered2);
                 others = filter (\<lambda>b. date b \<noteq> today) prev
             in map Whole others @ updated))"

section \<open>Notions of the specification\<close>

text \<open>
  A day counts for the streak when some block of that date is completed. The
  specification's streak walks back from today over at most 365 days and counts the
  days before the first one that does not count.
\<close>

definition dayCounts :: "(nat \<Rightarrow> js_string) \<Rightarrow> Block list \<Rightarrow> nat \<Rightarrow> bool" where
  "dayCounts daysAgo bs i \<longleftrightarrow> (\<exists>b \<in> set bs. date b = daysAgo i \<and> completed b)"

definition streak_spec :: "(nat \<Rightarrow> js_string) \<Rightarrow> Block list \<Rightarrow> nat" where
  "streak_spec daysAgo bs = length (takeWhile (dayCounts daysAgo bs) [0..<365])"

text \<open>
  The \<^verbatim>\<open>order\<close> values of a date are dense when, read in ascending order, they are
  \<open>0, 1, \<dots>, n - 1\<close> for the \<open>n\<close> blocks of that date.
\<close>

definition dense :: "js_string \<Rightarrow> Block list \<Rightarrow> bool" where
  "dense d bs \<longleftrightarrow>
     sort (map order (filter (\<lambda>b. date b = d) bs))
       = [0..<length (filter (\<lambda>b. date b = d) bs)]"

section \<open>Sample data\<close>

definition sample_days :: "js_string list" where
  "sample_days = [js ''2024-01-02'', js ''2024-01-01'', js ''2023-12-31'', js ''2023-12-30'',
                  js ''2023-12-29'', js ''2023-12-28'', js ''2023-12-27'']"

definition sample_daysAgo :: "nat \<Rightarrow> js_string" where
  "sample_daysAgo i = (if i < 7 then sample_days ! i else js ''2023-01-01'')"

definition sample_today :: js_string where
  "sample_today = js ''2024-01-02''"

definition sample_fresh :: "nat \<Rightarrow> rat" where
  "sample_fresh i = 1704153600000 + (of_nat i + 1) / 8"

definition later_fresh :: "nat \<Rightarrow> rat" where
  "later_fresh i = 1704153600777 + (of_nat i + 3) / 16"

text \<open>A stand-in for \<^verbatim>\<open>JSON.parse\<close> on two inputs: \<^verbatim>\<open>[]\<close> parses to the empty
  array, and anything else, such as the truncated \<^verbatim>\<open>{\<close>, is taken as a syntax error.\<close>

definition sample_parse :: "js_string \<Rightarrow> js_error + Block list" where
  "sample_parse s = (if s = js ''[]'' then Inr [] else Inl SyntaxError)"

definition run_block :: Block where
  "run_block = \<lparr>id' = 1, title = js ''Run'', completed = True, category = Health,
                 date = js ''2024-01-01'', isRecurring = True, order = 0\<rparr>"

definition task :: "rat \<Rightarrow> bool \<Rightarrow> js_string \<Rightarrow> nat \<Rightarrow> Block" where
  "task i c d n = \<lparr>id' = i, title = js ''Task'', completed = c, category = Work,
                   date = d, isRecurring = False, order = n\<rparr>"

text \<open>The store two days after \<^verbatim>\<open>Run\<close> was entered as a daily block: the block of the
  first day and the instance generated on the second day.\<close>

definition run_twice :: "Block list" where
  "run_twice = [run_block,
                run_block\<lparr>id' := sample_fresh 0, completed := False, date := js ''2024-01-02''\<rparr>]"

definition one_of_three :: "Block list" where
  "one_of_three = [task 1 False (js ''2024-01-02'') 0, task 2 True (js ''2024-01-02'') 1,
                   task 3 False (js ''2024-01-02'') 2, task 4 True (js ''2024-01-01'') 0]"

definition sample_store :: "Block list" where
  "sample_store = [task 1 True (js ''2024-01-02'') 0, task 2 False (js ''2024-01-02'') 1,
                   task 3 True (js ''2024-01-02'') 2, task 4 True (js ''2024-01-01'') 0]"

section \<open>Removing a block\<close>

text \<open>
  Claim C10. \<^verbatim>\<open>deleteBlock(id)\<close> removes exactly the blocks whose id is the given one:
  the result is a subsequence of the store, it holds every other block as often as the
  store did, with every field as it was (so the \<^verbatim>\<open>order\<close> values of the blocks that
  stay are not renumbered), and it holds no block with that id. Deleting an id that no
  block has returns the store itself.
\<close>

theorem deleteBlock_frame:
  "subseq (deleteBlock i prev) prev
   \<and> (\<forall>b. count_list (deleteBlock i prev) b = (if id' b = i then 0 else count_list prev b))
   \<and> (i \<notin> id' ` set prev \<longrightarrow> deleteBlock i prev = prev)"
proof -
  have sub: "subseq (deleteBlock i prev) prev"
    by (simp add: deleteBlock_def)
  have cnt: "count_list (deleteBlock i prev) b = (if id' b = i then 0 else count_list prev b)" for b
    by (induction prev) (auto simp: deleteBlock_def)
  have absent: "i \<notin> id' ` set prev \<longrightarrow> deleteBlock i prev = prev"
    by (auto simp: deleteBlock_def filter_id_conv)
  from sub cnt absent show ?thesis
    by simp
qed

theorem deleteBlock_frame_witness:
  "9 \<notin> id' ` set sample_store \<and> deleteBlock 9 sample_store = sample_store
   \<and> count_list (deleteBlock 2 sample_store) (task 2 False (js ''2024-01-02'') 1) = 0
   \<and> count_list (deleteBlock 2 sample_store) (task 3 True (js ''2024-01-02'') 2) = 1"
proof -
  have absent: "9 \<notin> id' ` set sample_store"
    by (simp add: sample_store_def task_def)
  have c3: "count_list sample_store (task 3 True (js ''2024-01-02'') 2) = 1"
    by (simp add: sample_store_def task_def)
  from absent c3 deleteBlock_frame [of 9 sample_store] deleteBlock_frame [of 2 sample_store]
  show ?thesis
    by (simp add: task_def)
qed

section \<open>Blank titles\<close>

lemma trim_blank: "\<forall>c \<in> set s. isWhiteSpace c \<Longrightarrow> trim s = []"
proof -
  assume "\<forall>c \<in> set s. isWhiteSpace c"
  then have "dropWhile isWhiteSpace s = []" by simp
  then show ?thesis unfolding trim_def by (simp only: rev.simps dropWhile.simps)
qed

lemma trim_Nil_iff: "trim s = [] \<longleftrightarrow> (\<forall>c \<in> set s. isWhiteSpace c)"
proof
  assume "trim s = []"
  then have "\<forall>c \<in> set (dropWhile isWhiteSpace s). isWhiteSpace c"
    by (simp add: trim_def)
  moreover have "\<forall>c \<in> set (takeWhile isWhiteSpace s). isWhiteSpace c"
    by (auto dest: set_takeWhileD)
  moreover have "set s = set (takeWhile isWhiteSpace s) \<union> set (dropWhile isWhiteSpace s)"
    by (metis set_append takeWhile_dropWhile_id)
  ultimately show "\<forall>c \<in> set s. isWhiteSpace c" by blast
next
  assume "\<forall>c \<in> set s. isWhiteSpace c"
  then show "trim s = []" by (rule trim_blank)
qed

text \<open>
  Claim C9. \<^verbatim>\<open>addBlock\<close> with a title that is empty or made of white space only
  returns the state it was given: no block is added, and nothing is raised, the
  function being total. These are the only titles it rejects.
\<close>

theorem addBlock_blank_title:
  "((\<forall>c \<in> set (newBlock st). isWhiteSpace c) \<longrightarrow> addBlock today now st = st)
   \<and> (blocks (addBlock today now st) = blocks st \<longleftrightarrow> (\<forall>c \<in> set (newBlock st). isWhiteSpace c))"
  by (auto simp: addBlock_def trim_Nil_iff)

theorem addBlock_blank_title_witness:
  "list_all isWhiteSpace (js ''  '')
   \<and> addBlock sample_today 1704200000000
        \<lparr>blocks = sample_store, newBlock = js ''  '', category_st = Work, isRecurring_st = True\<rparr>
      = \<lparr>blocks = sample_store, newBlock = js ''  '', category_st = Work, isRecurring_st = True\<rparr>"
proof -
  have blank: "list_all isWhiteSpace (js ''  '')"
    by (simp add: js_def isWhiteSpace_def)
  then have "\<forall>c \<in> set (js ''  ''). isWhiteSpace c"
    by (simp only: list_all_iff)
  with addBlock_blank_title [of "\<lparr>blocks = sample_store, newBlock = js ''  '', category_st = Work,
      isRecurring_st = True\<rparr>" sample_today 1704200000000]
  have "addBlock sample_today 1704200000000
        \<lparr>blocks = sample_store, newBlock = js ''  '', category_st = Work, isRecurring_st = True\<rparr>
      = \<lparr>blocks = sample_store, newBlock = js ''  '', category_st = Work, isRecurring_st = True\<rparr>"
    by simp
  with blank show ?thesis by simp
qed

section \<open>The streak\<close>

lemma streak_loop_unfold:
  "streak_loop daysAgo bs i s =
     (if i < 365 \<and> dayCounts daysAgo bs i then streak_loop daysAgo bs (i + 1) (s + 1) else s)"
  by (subst streak_loop.simps) (auto simp: dayCounts_def list_ex_iff)

text \<open>The loop, started at day \<open>i\<close> with \<open>s\<close> days counted, adds the days that count
  from \<open>i\<close> on up to the first one that does not.\<close>

lemma streak_loop_takeWhile:
  "i \<le> 365 \<Longrightarrow>
   streak_loop daysAgo bs i s = s + length (takeWhile (dayCounts daysAgo bs) [i..<365])"
proof (induction daysAgo bs i s rule: streak_loop.induct)
  case (1 daysAgo bs i s)
  show ?case
  proof (cases "i < 365 \<and> dayCounts daysAgo bs i")
    case True
    then have upt: "[i..<365] = i # [i + 1..<365]" by (simp add: upt_conv_Cons)
    from True have ex: "list_ex (\<lambda>b. date b = daysAgo i \<and> completed b) bs"
      by (simp add: dayCounts_def list_ex_iff)
    from True have "streak_loop daysAgo bs (i + 1) (s + 1)
        = (s + 1) + length (takeWhile (dayCounts daysAgo bs) [i + 1..<365])"
      using "1.IH" ex by simp
    with True upt show ?thesis
      by (subst streak_loop_unfold) simp
  next
    case False
    then consider "i = 365" | "i < 365" "\<not> dayCounts daysAgo bs i"
      using "1.prems" by force
    then show ?thesis
    proof cases
      case 1
      then show ?thesis by (subst streak_loop_unfold) simp
    next
      case 2
      then have upt: "[i..<365] = i # [i + 1..<365]" by (simp add: upt_conv_Cons)
      from 2 upt show ?thesis by (subst streak_loop_unfold) simp
    qed
  qed
qed

lemma streak_refines: "streak daysAgo bs = streak_spec daysAgo bs"
  by (simp add: streak_def streak_spec_def streak_loop_takeWhile del: upt_rec_numeral)

lemma streak_spec_char:
  "streak_spec daysAgo bs \<le> 365
   \<and> (\<forall>i < streak_spec daysAgo bs. dayCounts daysAgo bs i)
   \<and> (streak_spec daysAgo bs < 365 \<longrightarrow> \<not> dayCounts daysAgo bs (streak_spec daysAgo bs))"
proof -
  let ?P = "dayCounts daysAgo bs"
  let ?n = "length (takeWhile ?P [0..<365])"
  have le: "?n \<le> 365"
    using length_takeWhile_le [of ?P "[0..<365]"] by (simp del: upt_rec_numeral)
  have all: "?P i" if "i < ?n" for i
  proof -
    from that have "takeWhile ?P [0..<365] ! i = [0..<365] ! i" by (rule takeWhile_nth)
    moreover have "?P (takeWhile ?P [0..<365] ! i)" using that by (meson nth_mem set_takeWhileD)
    moreover have "[0..<365] ! i = i" using that le by (simp del: upt_rec_numeral)
    ultimately show ?thesis by (simp del: upt_rec_numeral)
  qed
  have stop: "\<not> ?P ?n" if "?n < 365"
  proof -
    from that have "\<not> ?P ([0..<365] ! ?n)"
      by (intro nth_length_takeWhile) (simp del: upt_rec_numeral)
    with that show ?thesis by (simp del: upt_rec_numeral)
  qed
  from le all stop show ?thesis by (simp add: streak_spec_def del: upt_rec_numeral)
qed

text \<open>
  Claim C5. \<^verbatim>\<open>streak\<close> is the streak of the specification: the number of consecutive
  days, walking back from today over at most 365 days, that have a completed block,
  up to the first day that has none. So every day before the result counts, the day
  of the result does not count unless the bound of 365 was reached, and the streak is
  0 when today has no completed block, whatever the days before hold.
\<close>

theorem streak_correct:
  "streak daysAgo bs = streak_spec daysAgo bs
   \<and> streak daysAgo bs \<le> 365
   \<and> (\<forall>i < streak daysAgo bs. dayCounts daysAgo bs i)
   \<and> (streak daysAgo bs < 365 \<longrightarrow> \<not> dayCounts daysAgo bs (streak daysAgo bs))
   \<and> (\<not> dayCounts daysAgo bs 0 \<longrightarrow> streak daysAgo bs = 0)"
proof -
  have zero: "streak daysAgo bs = 0" if "\<not> dayCounts daysAgo bs 0"
    using that by (simp add: streak_def streak_loop_unfold)
  from streak_spec_char [of daysAgo bs] zero show ?thesis
    by (simp add: streak_refines)
qed

theorem streak_correct_witness:
  "streak sample_daysAgo sample_store = 2
   \<and> dayCounts sample_daysAgo sample_store 0 \<and> dayCounts sample_daysAgo sample_store 1
   \<and> \<not> dayCounts sample_daysAgo sample_store 2
   \<and> \<not> dayCounts sample_daysAgo [run_block] 0 \<and> dayCounts sample_daysAgo [run_block] 1
   \<and> streak sample_daysAgo [run_block] = 0"
proof -
  have two: "streak sample_daysAgo sample_store = 2"
    by code_simp
  have today_none: "\<not> dayCounts sample_daysAgo [run_block] 0"
    by code_simp
  have yesterday: "dayCounts sample_daysAgo [run_block] 1"
    by code_simp
  note store = streak_correct [of sample_daysAgo sample_store]
  from store two have stop: "\<not> dayCounts sample_daysAgo sample_store 2"
    by auto
  from store two have d0: "dayCounts sample_daysAgo sample_store 0"
    by auto
  from store two have d1: "dayCounts sample_daysAgo sample_store 1"
    by auto
  from today_none streak_correct [of sample_daysAgo "[run_block]"]
  have zero: "streak sample_daysAgo [run_block] = 0"
    by blast
  from two d0 d1 stop today_none yesterday zero show ?thesis
    by blast
qed

section \<open>The weekly histogram\<close>

text \<open>
  Claim C6. \<^verbatim>\<open>weeklyData\<close> has exactly 7 entries. Entry \<open>i\<close> belongs to the date
  \<open>6 - i\<close> days ago, so the entries run from the oldest date to today; its label is
  that date from its sixth character on and its count is the number of completed
  blocks of that date. A date with no block has count 0, and all counts are 0 for the
  empty store.
\<close>

theorem weeklyData_entries:
  "length (weeklyData daysAgo bs) = 7
   \<and> (\<forall>i < 7. weeklyData daysAgo bs ! i
          = (drop 5 (daysAgo (6 - i)),
             length (filter (\<lambda>b. date b = daysAgo (6 - i) \<and> completed b) bs)))
   \<and> (\<forall>i < 7. (\<forall>b \<in> set bs. date b \<noteq> daysAgo (6 - i))
          \<longrightarrow> snd (weeklyData daysAgo bs ! i) = 0)
   \<and> map snd (weeklyData daysAgo []) = replicate 7 0"
proof -
  have len: "length (weeklyData daysAgo bs) = 7"
    by (simp add: weeklyData_def last7Days_def)
  have nth: "weeklyData daysAgo bs ! i
      = (drop 5 (daysAgo (6 - i)),
         length (filter (\<lambda>b. date b = daysAgo (6 - i) \<and> completed b) bs))" if "i < 7" for i
    using that by (simp add: weeklyData_def last7Days_def del: upt_Suc upt_rec_numeral)
  have none: "snd (weeklyData daysAgo bs ! i) = 0"
    if "i < 7" "\<forall>b \<in> set bs. date b \<noteq> daysAgo (6 - i)" for i
    using that by (simp add: nth)
  have empty: "map snd (weeklyData daysAgo []) = replicate 7 0"
    by (simp add: weeklyData_def last7Days_def numeral_eq_Suc)
  from len nth none empty show ?thesis
    by blast
qed

theorem weeklyData_entries_witness:
  "weeklyData sample_daysAgo sample_store
     = [(js ''12-27'', 0), (js ''12-28'', 0), (js ''12-29'', 0), (js ''12-30'', 0),
        (js ''12-31'', 0), (js ''01-01'', 1), (js ''01-02'', 2)]
   \<and> filter (\<lambda>b. date b = sample_daysAgo (6 - 4)) sample_store = []
   \<and> snd (weeklyData sample_daysAgo sample_store ! 4) = 0"
proof -
  have ev: "weeklyData sample_daysAgo sample_store
     = [(js ''12-27'', 0), (js ''12-28'', 0), (js ''12-29'', 0), (js ''12-30'', 0),
        (js ''12-31'', 0), (js ''01-01'', 1), (js ''01-02'', 2)]"
    by code_simp
  have no_block: "filter (\<lambda>b. date b = sample_daysAgo (6 - 4)) sample_store = []"
    by code_simp
  then have "\<forall>b \<in> set sample_store. date b \<noteq> sample_daysAgo (6 - 4)"
    by (simp only: filter_empty_conv) 
  with weeklyData_entries [of sample_daysAgo sample_store]
  have "snd (weeklyData sample_daysAgo sample_store ! 4) = 0"
    by simp
  with ev no_block show ?thesis
    by simp
qed

section \<open>The recurring effect\<close>



text \<open>The run after the first render reads the initial \<^verbatim>\<open>[]\<close>: it finds no template and
  leaves the store, whatever it holds, as it is.\<close>

lemma recurringEffect_initial: "recurringEffect today fresh [] prev = prev"
  by (simp add: recurringEffect_def)






section \<open>Loading the snapshot\<close>

text \<open>
  Claim C8, as amended. When no snapshot is stored, or the stored string is empty, the
  store starts empty. For any other snapshot the outcome of the load is the outcome of
  \<^verbatim>\<open>JSON.parse\<close>: a snapshot that does not parse makes the load raise the parse error,
  it does not give the empty store.
\<close>

theorem loadBlocks_outcome:
  "loadBlocks JSON_parse None = Inr []
   \<and> loadBlocks JSON_parse (Some []) = Inr []
   \<and> (s \<noteq> [] \<longrightarrow> loadBlocks JSON_parse (Some s) = JSON_parse s)
   \<and> (s \<noteq> [] \<and> JSON_parse s = Inl e \<longrightarrow> loadBlocks JSON_parse (Some s) \<noteq> Inr [])"
  by (auto simp: loadBlocks_def split: sum.splits)

theorem loadBlocks_outcome_witness:
  "js ''{'' \<noteq> [] \<and> sample_parse (js ''{'') = Inl SyntaxError
   \<and> loadBlocks sample_parse (Some (js ''{'')) = Inl SyntaxError
   \<and> loadBlocks sample_parse (Some (js ''[]'')) = Inr []"
proof -
  have ne: "js ''{'' \<noteq> []" "js ''[]'' \<noteq> []"
    by (simp_all add: js_def)
  have bad: "sample_parse (js ''{'') = Inl SyntaxError"
    by (simp add: sample_parse_def js_def)
  have good: "sample_parse (js ''[]'') = Inr []"
    by (simp add: sample_parse_def)
  from ne bad good loadBlocks_outcome [of sample_parse "js ''{''" SyntaxError]
    loadBlocks_outcome [of sample_parse "js ''[]''" SyntaxError]
  show ?thesis
    by simp
qed

text \<open>
  Claim C8 as stated fails: the snapshot \<^verbatim>\<open>{\<close> is rejected by \<^verbatim>\<open>JSON.parse\<close>, and the
  load ends with the \<^verbatim>\<open>SyntaxError\<close> instead of the empty store.
\<close>

theorem loadBlocks_corrupt_counterexample:
  "sample_parse (js ''{'') = Inl SyntaxError
   \<and> loadBlocks sample_parse (Some (js ''{'')) = Inl SyntaxError
   \<and> loadBlocks sample_parse (Some (js ''{'')) \<noteq> Inr []"
  by (simp add: loadBlocks_def sample_parse_def js_def)

section \<open>Today's progress\<close>

lemma ilog2_lower:
  assumes "0 < q"
  shows "2 powi (ilog2 q) \<le> q"
proof (cases "1 \<le> q")
  case True
  let ?n = "nat \<lfloor>q\<rfloor>"
  from True have n: "0 < ?n" by simp
  then have k: "0 < floorlog 2 ?n" by (simp add: floorlog_def)
  from floorlog_bounds [OF n, of 2] have "2 ^ (floorlog 2 ?n - 1) \<le> ?n" by simp
  then have "(2::rat) ^ (floorlog 2 ?n - 1) \<le> of_nat ?n"
    by (metis of_nat_le_iff of_nat_numeral of_nat_power)
  also have "\<dots> \<le> q" using True by (simp add: of_nat_nat)
  finally have "(2::rat) ^ (floorlog 2 ?n - 1) \<le> q" .
  moreover have "ilog2 q = int (floorlog 2 ?n - 1)" using True k by (simp add: ilog2_def)
  ultimately show ?thesis by simp
next
  case False
  let ?n = "nat (\<lceil>1 / q\<rceil> - 1)"
  let ?k = "floorlog 2 ?n"
  have "?n < 2 ^ ?k"
  proof (cases "0 < ?n")
    case True
    from floorlog_bounds [OF True, of 2] show ?thesis by simp
  next
    case False
    then show ?thesis by simp
  qed
  then have "int ?n < 2 ^ ?k" by (metis of_nat_less_iff of_nat_numeral of_nat_power)
  moreover have "\<lceil>1 / q\<rceil> - 1 \<le> int ?n" by arith
  ultimately have "\<lceil>1 / q\<rceil> \<le> 2 ^ ?k" by linarith
  then have "1 / q \<le> of_int (2 ^ ?k)" by (simp only: ceiling_le_iff)
  then have "1 / q \<le> 2 ^ ?k" by simp
  with assms have "1 \<le> 2 ^ ?k * q" by (simp add: field_simps)
  then have "inverse (2 ^ ?k) \<le> q" by (simp add: field_simps)
  moreover have "ilog2 q = - int ?k" using False by (simp add: ilog2_def)
  ultimately show ?thesis by (simp add: power_int_minus)
qed

lemma ilog2_upper:
  assumes "0 < q"
  shows "q < 2 powi (ilog2 q + 1)"
proof (cases "1 \<le> q")
  case True
  let ?n = "nat \<lfloor>q\<rfloor>"
  from True have n: "0 < ?n" by simp
  from floorlog_bounds [OF n, of 2] have "?n < 2 ^ floorlog 2 ?n" by simp
  then have "int ?n < 2 ^ floorlog 2 ?n" by (metis of_nat_less_iff of_nat_numeral of_nat_power)
  with True have "\<lfloor>q\<rfloor> < 2 ^ floorlog 2 ?n" by simp
  then have "q < of_int (2 ^ floorlog 2 ?n)" by (simp only: floor_less_iff)
  moreover have "ilog2 q + 1 = int (floorlog 2 ?n)" using True by (simp add: ilog2_def)
  ultimately show ?thesis by simp
next
  case False
  let ?n = "nat (\<lceil>1 / q\<rceil> - 1)"
  let ?k = "floorlog 2 ?n"
  have il: "ilog2 q + 1 = 1 - int ?k" using False by (simp add: ilog2_def)
  show ?thesis
  proof (cases "0 < ?n")
    case True
    then have k: "0 < ?k" by (simp add: floorlog_def)
    from floorlog_bounds [OF True, of 2] have "2 ^ (?k - 1) \<le> ?n" by simp
    then have "(2::int) ^ (?k - 1) \<le> int ?n" by (metis of_nat_le_iff of_nat_numeral of_nat_power)
    moreover from True have "int ?n = \<lceil>1 / q\<rceil> - 1" by arith
    ultimately have "(2::int) ^ (?k - 1) < \<lceil>1 / q\<rceil>" by simp
    then have "of_int (2 ^ (?k - 1)) < 1 / q" by (simp only: less_ceiling_iff)
    then have "2 ^ (?k - 1) < 1 / q" by simp
    with assms have "q * 2 ^ (?k - 1) < 1" by (simp add: field_simps)
    then have "q < inverse (2 ^ (?k - 1))" by (simp add: field_simps)
    moreover from k have "1 - int ?k = - int (?k - 1)" by simp
    ultimately show ?thesis by (simp only: il power_int_minus power_int_of_nat)
  next
    case False
    then have "?k = 0" by (simp add: floorlog_def)
    with il \<open>\<not> 1 \<le> q\<close> show ?thesis by simp
  qed
qed

lemma round_ties_even_err: "\<bar>of_int (round_ties_even x) - x\<bar> \<le> 1 / 2"
proof -
  have "of_int \<lfloor>x\<rfloor> \<le> x" "x < of_int \<lfloor>x\<rfloor> + 1" by linarith+
  then show ?thesis
    by (auto simp: round_ties_even_def Let_def abs_le_iff)
qed

text \<open>Rounding to a double moves a positive number by at most the fraction \<open>2\<^sup>-\<^sup>5\<^sup>3\<close> of it.\<close>

lemma fl_err:
  assumes "0 < q"
  shows "\<bar>fl q - q\<bar> \<le> q / 2 ^ 53"
proof -
  define e where "e = ilog2 q - 52"
  define p :: rat where "p = 2 powi e"
  define m where "m = round_ties_even (q / p)"
  have p: "0 < p" by (simp add: p_def)
  have "2 powi (ilog2 q) = p * 2 ^ 52"
    by (simp add: p_def e_def power_int_diff)
  with ilog2_lower [OF assms] have pq: "p * 2 ^ 52 \<le> q" by simp
  have fl: "fl q = of_int m * p"
    using assms by (simp add: fl_def m_def p_def e_def Let_def)
  have "\<bar>of_int m - q / p\<bar> \<le> 1 / 2" unfolding m_def by (rule round_ties_even_err)
  then have "\<bar>of_int m - q / p\<bar> * p \<le> 1 / 2 * p" using p by (simp only: mult_le_cancel_right_pos)
  moreover have "\<bar>of_int m - q / p\<bar> * p = \<bar>of_int m * p - q\<bar>"
    using p by (simp add: abs_mult_pos [symmetric] field_simps del: abs_mult_pos)
  ultimately have "\<bar>fl q - q\<bar> \<le> p / 2" by (simp add: fl)
  also have "\<dots> \<le> q / 2 ^ 53" using pq by simp
  finally show ?thesis .
qed

text \<open>The computed percentage is within \<open>2\<^sup>-\<^sup>4\<^sup>4\<close> of the exact one.\<close>

lemma percent_err:
  assumes "0 < c" "c \<le> t"
  shows "\<bar>fl (fl (of_nat c / of_nat t) * 100) - 100 * of_nat c / of_nat t\<bar> \<le> 1 / 2 ^ 44"
proof -
  define q :: rat where "q = of_nat c / of_nat t"
  define q1 where "q1 = fl q"
  define u :: rat where "u = 1 / 2 ^ 53"
  have u: "0 < u" "u \<le> 1" "300 * u \<le> 1 / 2 ^ 44" by (simp_all add: u_def)
  from assms have q: "0 < q" "q \<le> 1" by (simp_all add: q_def)
  from fl_err [OF q(1)] have e1: "\<bar>q1 - q\<bar> \<le> q * u" by (simp add: q1_def u_def)
  also have "q * u \<le> u" using q u by (simp add: mult_left_le_one_le)
  finally have e1': "\<bar>q1 - q\<bar> \<le> u" .
  have "q * u < q" using q u by (simp add: u_def)
  with e1 have q1: "0 < q1" by linarith
  from e1' q u have q1_le: "q1 \<le> 2" by linarith
  from q1 have "0 < q1 * 100" by simp
  from fl_err [OF this] have "\<bar>fl (q1 * 100) - q1 * 100\<bar> \<le> (q1 * 100) * u" by (simp add: u_def)
  also have "\<dots> \<le> 200 * u" using q1_le u by simp
  finally have e2: "\<bar>fl (q1 * 100) - q1 * 100\<bar> \<le> 200 * u" .
  from e1' e2 have "\<bar>fl (q1 * 100) - 100 * q\<bar> \<le> 300 * u" by linarith
  with u have "\<bar>fl (q1 * 100) - 100 * q\<bar> \<le> 1 / 2 ^ 44" by linarith
  then show ?thesis by (simp add: q_def q1_def)
qed

text \<open>
  A multiple of \<open>1 / (2 * t)\<close> that is positive is at least \<open>1 / (2 * t)\<close>; below
  \<open>2\<^sup>3\<^sup>2\<close> blocks this is far more than the rounding error of the percentage.
\<close>

lemma small_multiple_nonpos:
  fixes k :: int and T d :: rat
  assumes T: "0 < T" "T < 2 ^ 32" and k: "of_int k = 2 * T * d" and d: "d \<le> 1 / 2 ^ 44"
  shows "d \<le> 0"
proof (rule ccontr)
  assume "\<not> d \<le> 0"
  then have pos: "0 < d" by simp
  with T have "0 < 2 * T * d" by simp
  with k have "0 < (of_int k :: rat)" by simp
  then have "1 \<le> k" by simp
  then have "(1::rat) \<le> of_int k" by simp
  with k have one: "1 \<le> 2 * T * d" by simp
  have "2 * T * d \<le> 2 * T * (1 / 2 ^ 44)"
    using d T by (intro mult_left_mono) simp_all
  also have "\<dots> < 2 * 2 ^ 32 * (1 / 2 ^ 44)"
    using T by simp
  also have "\<dots> \<le> (1::rat)" by simp
  finally show False using one by simp
qed

lemma Math_round_percent:
  assumes t: "0 < t" "t < 2 ^ 32" and c: "c \<le> t"
  shows "\<bar>of_int (Math_round (fl (fl (of_nat c / of_nat t) * 100))) - 100 * of_nat c / of_nat t\<bar>
           \<le> (1 / 2 :: rat)"
proof (cases "c = 0")
  case True
  have "\<lfloor>1 / 2 :: rat\<rfloor> = 0" by (simp add: floor_eq_iff)
  with True show ?thesis by (simp add: fl_def Math_round_def)
next
  case False
  define T :: rat where "T = of_nat t"
  define x :: rat where "x = 100 * of_nat c / of_nat t"
  define x' where "x' = fl (fl (of_nat c / of_nat t) * 100)"
  define r where "r = Math_round x'"
  from t have T: "0 < T" "T < 2 ^ 32"
    unfolding T_def by (simp, metis of_nat_less_iff of_nat_numeral of_nat_power)
  from False c have err: "\<bar>x' - x\<bar> \<le> 1 / 2 ^ 44"
    unfolding x_def x'_def by (intro percent_err) simp_all
  have fl1: "of_int r \<le> x' + 1 / 2" and fl2: "x' + 1 / 2 < of_int r + 1"
    unfolding r_def Math_round_def by linarith+
  have xT: "x * T = 100 * of_nat c"
    using t by (simp add: x_def T_def)
  have "of_int (2 * r * int t - 200 * int c - int t) = 2 * T * (of_int r - x - 1 / 2)"
    using xT by (simp add: T_def algebra_simps)
  moreover from fl1 err have "of_int r - x - 1 / 2 \<le> 1 / 2 ^ 44" by linarith
  ultimately have up: "of_int r - x - 1 / 2 \<le> 0"
    using T by (intro small_multiple_nonpos [of T]) 
  have "of_int (200 * int c - 2 * r * int t - int t) = 2 * T * (x - of_int r - 1 / 2)"
    using xT by (simp add: T_def algebra_simps)
  moreover from fl2 err have "x - of_int r - 1 / 2 \<le> 1 / 2 ^ 44" by linarith
  ultimately have down: "x - of_int r - 1 / 2 \<le> 0"
    using T by (intro small_multiple_nonpos [of T])
  from up down have "\<bar>of_int r - x\<bar> \<le> 1 / 2" by linarith
  then show ?thesis by (simp add: r_def x'_def x_def)
qed

lemma length_todaysBlocks:
  "length (todaysBlocks today bs) = length (filter (\<lambda>b. date b = today) bs)"
  by (simp add: todaysBlocks_def)

lemma length_completed_todaysBlocks:
  "length (filter completed (todaysBlocks today bs))
     = length (filter (\<lambda>b. date b = today \<and> completed b) bs)"
proof -
  have "filter completed (todaysBlocks today bs)
      = sort_key order (filter completed (filter (\<lambda>b. date b = today) bs))"
    by (simp add: todaysBlocks_def filter_sort)
  then show ?thesis by (simp add: conj_commute)
qed

lemma progress_unfold:
  "progress today bs =
     (if length (filter (\<lambda>b. date b = today) bs) = 0 then 0
      else Math_round (fl (fl (of_nat (length (filter (\<lambda>b. date b = today \<and> completed b) bs))
                                / of_nat (length (filter (\<lambda>b. date b = today) bs))) * 100)))"
  unfolding progress_def Let_def length_todaysBlocks length_completed_todaysBlocks ..

lemma one_third: "Math_round (fl (fl (1 / 3) * 100)) = 33"
  by code_simp

text \<open>
  Claim C7. Let \<open>n\<close> be the number of blocks dated today and \<open>k\<close> the number of
  completed ones among them. \<^verbatim>\<open>progress\<close> is 0 when \<open>n = 0\<close>. Otherwise it is the
  percentage \<open>100 * k / n\<close> rounded to an integer: it differs from the exact percentage
  by at most one half (for every array a JavaScript engine can hold, \<open>n < 2\<^sup>3\<^sup>2\<close>). With
  3 blocks today and 1 completed it is 33.
\<close>

theorem progress_rounded_percentage:
  "(let n = length (filter (\<lambda>b. date b = today) bs);
        k = length (filter (\<lambda>b. date b = today \<and> completed b) bs)
    in (n = 0 \<longrightarrow> progress today bs = 0)
       \<and> (0 < n \<and> n < 2 ^ 32 \<longrightarrow>
            \<bar>of_int (progress today bs) - 100 * of_nat k / of_nat n\<bar> \<le> (1 / 2 :: rat))
       \<and> (n = 3 \<and> k = 1 \<longrightarrow> progress today bs = 33))"
proof -
  let ?n = "length (filter (\<lambda>b. date b = today) bs)"
  let ?k = "length (filter (\<lambda>b. date b = today \<and> completed b) bs)"
  have zero: "progress today bs = 0" if "?n = 0"
    using that by (simp only: progress_unfold) simp
  have "?k \<le> length (filter completed (filter (\<lambda>b. date b = today) bs))"
    by (simp add: conj_commute)
  also have "\<dots> \<le> ?n" by (rule length_filter_le)
  finally have le: "?k \<le> ?n" .
  have near: "\<bar>of_int (progress today bs) - 100 * of_nat ?k / of_nat ?n\<bar> \<le> (1 / 2 :: rat)"
    if "0 < ?n" "?n < 2 ^ 32"
  proof -
    from that have "progress today bs = Math_round (fl (fl (of_nat ?k / of_nat ?n) * 100))"
      by (simp only: progress_unfold) simp
    with Math_round_percent [OF that le] show ?thesis by simp
  qed
  have third: "progress today bs = 33" if "?n = 3" "?k = 1"
  proof -
    from that have "progress today bs = Math_round (fl (fl (1 / 3) * 100))"
      by (simp only: progress_unfold) simp
    with one_third show ?thesis by simp
  qed
  from zero near third show ?thesis
    unfolding Let_def by blast
qed

theorem progress_rounded_percentage_witness:
  "progress sample_today [run_block] = 0
   \<and> progress sample_today one_of_three = 33
   \<and> \<bar>of_int (progress sample_today sample_store) - 100 * 2 / 3\<bar> \<le> (1 / 2 :: rat)"
proof -
  have n0: "length (filter (\<lambda>b. date b = sample_today) [run_block]) = 0"
    by (simp add: run_block_def sample_today_def js_def)
  have n1: "length (filter (\<lambda>b. date b = sample_today) one_of_three) = 3"
    and k1: "length (filter (\<lambda>b. date b = sample_today \<and> completed b) one_of_three) = 1"
    by (simp_all add: one_of_three_def task_def sample_today_def js_def)
  have n2: "length (filter (\<lambda>b. date b = sample_today) sample_store) = 3"
    and k2: "length (filter (\<lambda>b. date b = sample_today \<and> completed b) sample_store) = 2"
    by (simp_all add: sample_store_def task_def sample_today_def js_def)
  from progress_rounded_percentage [of sample_today "[run_block]"] n0
  have a: "progress sample_today [run_block] = 0"
    unfolding Let_def by blast
  from progress_rounded_percentage [of sample_today one_of_three] n1 k1
  have b: "progress sample_today one_of_three = 33"
    unfolding Let_def by blast
  have "(0::nat) < 3 \<and> (3::nat) < 2 ^ 32" by simp
  with progress_rounded_percentage [of sample_today sample_store]
  have c: "\<bar>of_int (progress sample_today sample_store) - 100 * 2 / 3\<bar> \<le> (1 / 2 :: rat)"
    unfolding Let_def n2 k2 by simp
  from a b c show ?thesis by blast
qed

section \<open>Operations that keep the order values dense\<close>

text \<open>\<^verbatim>\<open>addBlock\<close> appends with the number of today's blocks as \<^verbatim>\<open>order\<close>, so a dense
  date stays dense.\<close>

lemma sort_snoc_upt:
  fixes xs :: "nat list"
  assumes "sort xs = [0..<n]"
  shows "sort (xs @ [n]) = [0..<Suc n]"
proof -
  from assms have "set (sort xs) = {0..<n}" "distinct (sort xs)" by simp_all
  then have sx: "set xs = {0..<n}" and dx: "distinct xs" by simp_all
  have "set (sort (xs @ [n])) = set [0..<Suc n]" using sx by auto
  moreover have "distinct (sort (xs @ [n]))" using sx dx by simp
  moreover have "sorted [0..<Suc n]" "distinct [0..<Suc n]" "sorted (sort (xs @ [n]))"
    by (simp_all del: upt_Suc)
  ultimately show ?thesis
    by (intro sorted_distinct_set_unique)
qed

lemma addBlock_dense:
  assumes "dense d (blocks st)"
  shows "dense d (blocks (addBlock today now st))"
proof (cases "trim (newBlock st) = []")
  case True
  with assms show ?thesis by (simp add: addBlock_def)
next
  case False
  show ?thesis
  proof (cases "d = today")
    case True
    with assms False show ?thesis
      by (simp add: addBlock_def dense_def todaysBlocks_def sort_snoc_upt del: upt_Suc)
  next
    case False
    with assms \<open>trim (newBlock st) \<noteq> []\<close> show ?thesis
      by (simp add: addBlock_def dense_def)
  qed
qed

text \<open>
  When today has a block, a drag between two different ids ends with today's blocks
  numbered \<open>0, \<dots>, n - 1\<close> and the blocks of every other date as they were, whether or
  not the two ids are found.
\<close>

lemma findIndex_from_range: "findIndex_from p xs k = -1 \<or> (k \<le> findIndex_from p xs k \<and> findIndex_from p xs k < k + int (length xs))"
  by (induction xs arbitrary: k) (auto, force+)

lemma findIndex_range: "-1 \<le> findIndex p xs \<and> findIndex p xs < int (length xs)"
  using findIndex_from_range [of p xs 0] by (auto simp: findIndex_def)

lemma splice_remove_one:
  assumes "xs \<noteq> []" "s < int (length xs)"
  shows "\<exists>k < length xs. splice s 1 [] xs = ([xs ! k], take k xs @ drop (Suc k) xs)"
proof -
  define a where "a = (if s < 0 then max (int (length xs) + s) 0 else min s (int (length xs)))"
  from assms have a: "0 \<le> a" "a < int (length xs)" by (auto simp: a_def)
  then have k: "nat a < length xs" by simp
  from a have del: "min (max 1 0) (int (length xs) - a) = 1" by simp
  have "take 1 (drop (nat a) xs) = [xs ! nat a]"
    using k by (simp add: Cons_nth_drop_Suc [symmetric])
  moreover have "nat (a + 1) = Suc (nat a)" using a by simp
  ultimately have "splice s 1 [] xs = ([xs ! nat a], take (nat a) xs @ drop (Suc (nat a)) xs)"
    using del unfolding splice_def Let_def a_def [symmetric] by simp
  with k show ?thesis by blast
qed

lemma splice_insert_one:
  "\<exists>k \<le> length xs. splice s 0 [x] xs = ([], take k xs @ x # drop k xs)"
proof -
  define a where "a = (if s < 0 then max (int (length xs) + s) 0 else min s (int (length xs)))"
  have a: "0 \<le> a" "a \<le> int (length xs)" by (auto simp: a_def)
  then have del: "min (max 0 0) (int (length xs) - a) = 0" by simp
  have "splice s 0 [x] xs = ([], take (nat a) xs @ x # drop (nat a) xs)"
    using del unfolding splice_def Let_def a_def [symmetric] by simp
  moreover from a have "nat a \<le> length xs" by simp
  ultimately show ?thesis by blast
qed

lemma renumber_orders:
  "map order (map (\<lambda>(i, b). b\<lparr>order := i\<rparr>) (enumerate n zs)) = [n..<n + length zs]"
proof -
  have "map order (map (\<lambda>(i, b). b\<lparr>order := i\<rparr>) (enumerate n zs)) = map fst (enumerate n zs)"
    by (simp add: comp_def case_prod_beta)
  then show ?thesis by (simp only: map_fst_enumerate)
qed

lemma renumber_Some:
  "map (\<lambda>(i, b). case b of None \<Rightarrow> OrderOnly i | Some b' \<Rightarrow> Whole (b'\<lparr>order := i\<rparr>))
       (enumerate n (map Some zs))
   = map Whole (map (\<lambda>(i, b). b\<lparr>order := i\<rparr>) (enumerate n zs))"
  by (induction zs arbitrary: n) simp_all

lemma handleDragEnd_renumbers:
  assumes ne: "filter (\<lambda>b. date b = today) prev \<noteq> []" and ij: "i \<noteq> j"
  shows "\<exists>ys. handleDragEnd today i (Some j) prev
                 = map Whole (filter (\<lambda>b. date b \<noteq> today) prev @ ys)
              \<and> map order ys = [0..<length (filter (\<lambda>b. date b = today) prev)]
              \<and> (\<forall>b \<in> set ys. date b = today)"
proof -
  define items where "items = sort_key order (filter (\<lambda>b. date b = today) prev)"
  define oldIndex where "oldIndex = findIndex (\<lambda>b. id' b = i) items"
  define newIndex where "newIndex = findIndex (\<lambda>b. id' b = j) items"
  have len: "length items = length (filter (\<lambda>b. date b = today) prev)"
    by (simp add: items_def)
  from ne have "length items \<noteq> 0" by (simp add: items_def)
  then have items_ne: "map Some items \<noteq> []" by simp
  have dates: "\<forall>b \<in> set items. date b = today" by (simp add: items_def)
  have "oldIndex < int (length (map Some items))"
    using findIndex_range [of "\<lambda>b. id' b = i" items] by (simp add: oldIndex_def)
  from splice_remove_one [OF items_ne this]
  obtain k where k: "k < length items"
    and rm: "splice oldIndex 1 [] (map Some items)
               = ([map Some items ! k], take k (map Some items) @ drop (Suc k) (map Some items))"
    by auto
  define rest where "rest = take k items @ drop (Suc k) items"
  have rest: "take k (map Some items) @ drop (Suc k) (map Some items) = map Some rest"
    by (simp add: rest_def take_map drop_map)
  from k have moved: "map Some items ! k = Some (items ! k)" by simp
  from splice_insert_one [of "map Some rest" newIndex "Some (items ! k)"]
  obtain k' where k': "k' \<le> length rest"
    and ins: "splice newIndex 0 [Some (items ! k)] (map Some rest)
               = ([], take k' (map Some rest) @ Some (items ! k) # drop k' (map Some rest))"
    by auto
  define zs where "zs = take k' rest @ items ! k # drop k' rest"
  have zs: "take k' (map Some rest) @ Some (items ! k) # drop k' (map Some rest) = map Some zs"
    by (simp add: zs_def take_map drop_map)
  define ys where "ys = map (\<lambda>(i, b). b\<lparr>order := i\<rparr>) (enumerate 0 zs)"
  have "length rest = length items - 1" using k by (simp add: rest_def)
  with k have lz: "length zs = length items" by (simp add: zs_def)
  have "set rest \<subseteq> set items"
    unfolding rest_def using set_take_subset [of k items] set_drop_subset [of "Suc k" items] by auto
  moreover have "set zs \<subseteq> insert (items ! k) (set rest)"
    unfolding zs_def using set_take_subset [of k' rest] set_drop_subset [of k' rest] by auto
  ultimately have "set zs \<subseteq> set items" using k by auto
  with dates have zdates: "\<forall>b \<in> set zs. date b = today" by blast
  have ydates: "\<forall>b \<in> set ys. date b = today"
    using zdates by (auto simp: ys_def in_set_enumerate_eq)
  have yorders: "map order ys = [0..<length (filter (\<lambda>b. date b = today) prev)]"
    using renumber_orders [of 0 zs] by (simp add: ys_def lz len)
  have "handleDragEnd today i (Some j) prev = map Whole (filter (\<lambda>b. date b \<noteq> today) prev) @ map Whole ys"
    using ij
    by (simp add: handleDragEnd_def Let_def items_def [symmetric] oldIndex_def [symmetric]
        newIndex_def [symmetric] rm moved rest ins zs renumber_Some ys_def)
  with yorders ydates show ?thesis by auto
qed

lemma handleDragEnd_dense:
  assumes "filter (\<lambda>b. date b = today) prev \<noteq> []" "i \<noteq> j"
  shows "\<exists>bs. handleDragEnd today i (Some j) prev = map Whole bs \<and> dense today bs
            \<and> (\<forall>d. d \<noteq> today \<longrightarrow> filter (\<lambda>b. date b = d) bs = filter (\<lambda>b. date b = d) prev)"
proof -
  from handleDragEnd_renumbers [OF assms] obtain ys where
    h: "handleDragEnd today i (Some j) prev = map Whole (filter (\<lambda>b. date b \<noteq> today) prev @ ys)"
    and o: "map order ys = [0..<length (filter (\<lambda>b. date b = today) prev)]"
    and d: "\<forall>b \<in> set ys. date b = today"
    by blast
  let ?bs = "filter (\<lambda>b. date b \<noteq> today) prev @ ys"
  from d have fy: "filter (\<lambda>b. date b = today) ys = ys" by (simp add: filter_id_conv)
  have ft: "filter (\<lambda>b. date b = today) ?bs = ys"
    using fy by (simp add: filter_empty_conv)
  have "length ys = length (filter (\<lambda>b. date b = today) prev)"
    using o by (metis length_map length_upt diff_zero)
  with o ft have "dense today ?bs"
    by (simp add: dense_def sort_key_id_if_sorted del: filter_append)
  moreover have "filter (\<lambda>b. date b = d) ?bs = filter (\<lambda>b. date b = d) prev" if "d \<noteq> today" for d
  proof -
    from d that have "filter (\<lambda>b. date b = d) ys = []" by (auto simp: filter_empty_conv)
    moreover have "filter (\<lambda>b. date b = d) (filter (\<lambda>b. date b \<noteq> today) prev)
        = filter (\<lambda>b. date b = d) prev"
      using that by (induction prev) auto
    ultimately show ?thesis by simp
  qed
  ultimately show ?thesis using h by blast
qed

section \<open>Order values after a delete\<close>

text \<open>
  Claim C1 at a failing input. The sample store is dense on both of its dates. After
  \<^verbatim>\<open>deleteBlock(1)\<close> the blocks of today keep the \<^verbatim>\<open>order\<close> values 1 and 2, so the
  values of today are no longer \<open>0, \<dots>, n - 1\<close>. After \<^verbatim>\<open>deleteBlock(1)\<close> and
  \<^verbatim>\<open>deleteBlock(2)\<close> the block that \<^verbatim>\<open>addBlock\<close> appends receives \<^verbatim>\<open>order\<close> 1, below the 2
  of the block that was already there, and \<^verbatim>\<open>todaysBlocks\<close> lists the new block first.
\<close>

theorem deleteBlock_breaks_density:
  "dense sample_today sample_store \<and> dense (js ''2024-01-01'') sample_store
   \<and> map order (filter (\<lambda>b. date b = sample_today) (deleteBlock 1 sample_store)) = [1, 2]
   \<and> \<not> dense sample_today (deleteBlock 1 sample_store)
   \<and> map id' (todaysBlocks sample_today
         (blocks (addBlock sample_today 1704200000000
            \<lparr>blocks = deleteBlock 2 (deleteBlock 1 sample_store), newBlock = js ''New'',
              category_st = Work, isRecurring_st = False\<rparr>)))
       = [1704200000000, 3]"
  by code_simp

section \<open>Order values of generated blocks\<close>

text \<open>A block that the pass adds is a template with a new id, not completed, dated
  today; every other field, \<^verbatim>\<open>order\<close> included, is the template's.\<close>

lemma recurringEffect_fields:
  assumes "b \<in> set (recurringEffect today fresh blocks' prev)" "b \<notin> set prev"
  shows "\<exists>t \<in> set blocks'. \<exists>i. isRecurring t \<and> date t \<noteq> today
           \<and> b = t\<lparr>id' := fresh i, completed := False, date := today\<rparr>"
proof -
  let ?ts = "filter (\<lambda>b. isRecurring b \<and> date b \<noteq> today) blocks'"
  from assms have "b \<in> set (map (\<lambda>(i, b). b\<lparr>id' := fresh i, completed := False, date := today\<rparr>)
      (enumerate 0 ?ts))"
    by (auto simp: recurringEffect_def Let_def split: if_splits)
  then obtain i t where it: "(i, t) \<in> set (enumerate 0 ?ts)"
    and b: "b = t\<lparr>id' := fresh i, completed := False, date := today\<rparr>"
    by auto
  from it have "i < length ?ts" and "?ts ! i = t"
    by (simp_all add: in_set_enumerate_eq)
  then have "t \<in> set ?ts" by (metis nth_mem)
  then have "t \<in> set blocks'" "isRecurring t" "date t \<noteq> today" by simp_all
  with b show ?thesis by blast
qed

text \<open>
  Claim C2 at a failing input. The store holds the daily block \<^verbatim>\<open>Run\<close> of 2024-01-01 and
  its instance of 2024-01-02, both with \<^verbatim>\<open>order\<close> 0, and no block of 2024-01-03. The
  pass for 2024-01-03, reading that store, makes one block per template, and each carries the \<^verbatim>\<open>order\<close> 0
  of its template: the values of the new date are 0 and 0, where appending one after
  the other would give 0 and 1.
\<close>

theorem recurringEffect_copies_order:
  "filter (\<lambda>b. date b = js ''2024-01-03'') run_twice = []
   \<and> map order (filter (\<lambda>b. date b = js ''2024-01-03'')
         (recurringEffect (js ''2024-01-03'') later_fresh run_twice run_twice)) = [0, 0]
   \<and> \<not> dense (js ''2024-01-03'')
         (recurringEffect (js ''2024-01-03'') later_fresh run_twice run_twice)"
  by code_simp

section \<open>Dragging with an id that is not in today's list\<close>

text \<open>The guard of \<^verbatim>\<open>handleDragEnd\<close>: no drop target, or the dragged block dropped
  on itself.\<close>

lemma handleDragEnd_guard:
  "handleDragEnd today i None prev = map Whole prev"
  "handleDragEnd today i (Some i) prev = map Whole prev"
  by (simp_all add: handleDragEnd_def)

text \<open>
  Claim C4 at a failing input. No block of the sample store has the id 99. With 99 as
  the dragged id and block 1 as the target, \<^verbatim>\<open>findIndex\<close> gives \<open>-1\<close>, \<^verbatim>\<open>splice(-1, 1)\<close>
  takes the last block of today out, and it is put back in front of block 1: the
  store is not the one before the call. With no block dated today at all, the object
  \<^verbatim>\<open>{ order: 0 }\<close> is appended to the store.
\<close>

theorem handleDragEnd_unknown_id:
  "99 \<notin> id' ` set sample_store
   \<and> handleDragEnd sample_today 99 (Some 1) sample_store
       = [Whole (task 4 True (js ''2024-01-01'') 0), Whole (task 3 True (js ''2024-01-02'') 0),
          Whole (task 1 True (js ''2024-01-02'') 1), Whole (task 2 False (js ''2024-01-02'') 2)]
   \<and> handleDragEnd sample_today 99 (Some 1) sample_store \<noteq> map Whole sample_store
   \<and> handleDragEnd (js ''2024-01-03'') 1 (Some 3) sample_store
       = map Whole sample_store @ [OrderOnly 0]"
  by code_simp

end
